theory Spec2Isabelle
  imports Main "HOL-Library.Sublist"
begin

section \<open>Text\<close>

text \<open>
  Python \<open>str\<close> values are modelled by \<^typ>\<open>string\<close>: the list of the bytes of their UTF-8
  encoding. Every character the two patterns of the program name explicitly is ASCII, and
  an ASCII byte never occurs inside a multi-byte sequence, so matching on bytes and matching
  on code points find the same matches.
\<close>

section \<open>MermaidProcessor\<close>

text \<open>
  \<open>self.pattern\<close> is the regular expression \<^verbatim>\<open>```mermaid\n(.*?)\n```\<close>, always used with
  \<open>re.DOTALL\<close>. At a start position it matches the literal opening fence, then the shortest
  run of arbitrary characters (newlines included) that is followed by the literal closing
  fence. \<open>lazy_until\<close> is that lazy run: it returns the run and the text after the closing
  literal, or \<open>None\<close> when the literal does not occur.
\<close>

definition fence_open :: string where
  "fence_open = ''```mermaid\<newline>''"

definition fence_close :: string where
  "fence_close = ''\<newline>```''"

definition div_open :: string where
  \<open>div_open = ''<div class="mermaid">\<newline>''\<close>

definition div_close :: string where
  "div_close = ''\<newline></div>''"

fun lazy_until :: "string \<Rightarrow> string \<Rightarrow> (string \<times> string) option" where
  "lazy_until pat [] = (if pat = [] then Some ([], []) else None)"
| "lazy_until pat (c # cs) =
     (if prefix pat (c # cs) then Some ([], drop (length pat) (c # cs))
      else (case lazy_until pat cs of
              None \<Rightarrow> None
            | Some (body, rest) \<Rightarrow> Some (c # body, rest)))"

definition match_mermaid :: "string \<Rightarrow> (string \<times> string) option" where
  "match_mermaid s =
     (if prefix fence_open s then lazy_until fence_close (drop (length fence_open) s)
      else None)"

lemma lazy_until_eq:
  "lazy_until pat s = Some (b, r) \<Longrightarrow> s = b @ pat @ r"
proof (induction s arbitrary: b r)
  case Nil
  then show ?case by (auto split: if_splits)
next
  case (Cons c cs)
  then show ?case
    by (auto split: if_splits option.splits simp: prefix_def)
qed

lemma match_mermaid_eq:
  "match_mermaid s = Some (b, r) \<Longrightarrow> s = fence_open @ b @ fence_close @ r"
  unfolding match_mermaid_def
  by (auto split: if_splits dest!: lazy_until_eq simp: prefix_def)

lemma match_mermaid_shorter:
  "match_mermaid s = Some (b, r) \<Longrightarrow> length r < length s"
  by (drule match_mermaid_eq) (simp add: fence_open_def)

text \<open>
  \<open>process\<close> is \<open>re.sub(pattern, replace_mermaid, content, flags=re.DOTALL)\<close>: the text is
  scanned from the left, the leftmost match is replaced by
  \<^verbatim>\<open><div class="mermaid">\n{group 1}\n</div>\<close>, and scanning resumes right after the match.
  A match is at least 15 characters long, so no empty match arises.
\<close>

function mermaid_process :: "string \<Rightarrow> string" where
  "mermaid_process s =
     (case match_mermaid s of
        Some (body, rest) \<Rightarrow> div_open @ body @ div_close @ mermaid_process rest
      | None \<Rightarrow> (case s of [] \<Rightarrow> [] | c # cs \<Rightarrow> c # mermaid_process cs))"
  by pat_completeness auto
termination
  by (relation "measure length") (auto dest: match_mermaid_shorter)

text \<open>\<open>extract_diagrams\<close> is \<open>re.findall\<close>: group 1 of every match of the same scan.\<close>

function extract_diagrams :: "string \<Rightarrow> string list" where
  "extract_diagrams s =
     (case match_mermaid s of
        Some (body, rest) \<Rightarrow> body # extract_diagrams rest
      | None \<Rightarrow> (case s of [] \<Rightarrow> [] | c # cs \<Rightarrow> extract_diagrams cs))"
  by pat_completeness auto
termination
  by (relation "measure length") (auto dest: match_mermaid_shorter)

declare mermaid_process.simps [simp del] extract_diagrams.simps [simp del]

text \<open>\<open>has_mermaid\<close> is \<open>bool(re.search(...))\<close>: some start position has a match.\<close>

fun has_mermaid :: "string \<Rightarrow> bool" where
  "has_mermaid [] = (match_mermaid [] \<noteq> None)"
| "has_mermaid (c # cs) = (match_mermaid (c # cs) \<noteq> None \<or> has_mermaid cs)"

section \<open>Exceptions and paths\<close>

text \<open>
  An exception is kept as its class name and the text \<open>str(e)\<close> gives. A function of the
  program that can raise returns \<open>exn + 'a\<close>, with \<open>Inl\<close> for the exception.
\<close>

datatype exn = Exn (exn_class: string) (str_exn: string)

text \<open>
  A \<open>pathlib\<close> path on a POSIX system: whether it is anchored at the root, and its
  components. \<open>path_of_string\<close> is the constructor \<open>Path(s)\<close>: empty components and
  \<open>.\<close> components are dropped, \<open>..\<close> is kept as it is (a root written with exactly two
  slashes is not told apart from \<open>/\<close>). \<open>joinpath\<close> is the operator \<open>/\<close> with a string on
  its right: an absolute right operand replaces the left one.
\<close>

datatype path = Path (is_absolute: bool) (parts: "string list")

fun split_on :: "char \<Rightarrow> string \<Rightarrow> string list" where
  "split_on sep [] = [[]]"
| "split_on sep (c # cs) =
     (if c = sep then [] # split_on sep cs
      else (case split_on sep cs of
              [] \<Rightarrow> [[c]]
            | w # ws \<Rightarrow> (c # w) # ws))"

definition path_of_string :: "string \<Rightarrow> path" where
  "path_of_string s =
     Path (prefix ''/'' s)
          (filter (\<lambda>c. c \<noteq> [] \<and> c \<noteq> ''.'') (split_on (CHR ''/'') s))"

definition joinpath :: "path \<Rightarrow> string \<Rightarrow> path" where
  "joinpath p s =
     (let q = path_of_string s
      in if is_absolute q then q else Path (is_absolute p) (parts p @ parts q))"

text \<open>
  \<open>path_name\<close>, \<open>path_suffix\<close>, \<open>path_stem\<close> and \<open>path_parent\<close> are the properties
  \<open>name\<close>, \<open>suffix\<close>, \<open>stem\<close> and \<open>parent\<close>: the name is the last component (empty for
  \<open>.\<close> and \<open>/\<close>), the suffix starts at the last dot of the name unless that dot is its
  first or its last character.
\<close>

definition path_name :: "path \<Rightarrow> string" where
  "path_name p = (if parts p = [] then [] else last (parts p))"

definition path_suffix :: "path \<Rightarrow> string" where
  "path_suffix p =
     (let n = path_name p; ext = rev (takeWhile (\<lambda>c. c \<noteq> CHR ''.'') (rev n))
      in if CHR ''.'' \<in> set n \<and> ext \<noteq> [] \<and> length ext + 1 < length n
         then CHR ''.'' # ext else [])"

definition path_stem :: "path \<Rightarrow> string" where
  "path_stem p = take (length (path_name p) - length (path_suffix p)) (path_name p)"

definition path_parent :: "path \<Rightarrow> path" where
  "path_parent p = Path (is_absolute p) (butlast (parts p))"

fun join_with :: "string \<Rightarrow> string list \<Rightarrow> string" where
  "join_with sep [] = []"
| "join_with sep [x] = x"
| "join_with sep (x # y # ys) = x @ sep @ join_with sep (y # ys)"

definition str_path :: "path \<Rightarrow> string" where
  "str_path p =
     (if parts p = [] then (if is_absolute p then ''/'' else ''.'')
      else (if is_absolute p then ''/'' else []) @ join_with ''/'' (parts p))"

definition repr_path :: "path \<Rightarrow> string" where
  "repr_path p = ''PosixPath('' @ [CHR 0x27] @ str_path p @ [CHR 0x27] @ '')''"

text \<open>
  \<open>with_suffix\<close> raises \<open>ValueError\<close> on a path with an empty name. The program passes
  the suffix \<open>.html\<close> only, so the checks \<open>pathlib\<close> makes on the suffix itself never fail.
\<close>

definition with_suffix :: "path \<Rightarrow> string \<Rightarrow> exn + path" where
  "with_suffix p sfx =
     (if path_name p = [] then Inl (Exn ''ValueError'' (repr_path p @ '' has an empty name''))
      else Inr (Path (is_absolute p) (butlast (parts p) @ [path_stem p @ sfx])))"

definition lstrip_slash :: "string \<Rightarrow> string" where
  "lstrip_slash s = dropWhile (\<lambda>c. c = CHR ''/'') s"

section \<open>Files\<close>

text \<open>
  The file system maps a path to a regular file with its bytes, or to a directory. The root
  and the current directory always exist; any other path is reached only through
  directories, as the system resolves it component by component. Relative paths are keys of
  their own: the current directory does not change during a conversion.
\<close>

datatype node = File string | Dir

type_synonym filesystem = "path \<Rightarrow> node option"

definition ancestors_are_dirs :: "filesystem \<Rightarrow> path \<Rightarrow> bool" where
  "ancestors_are_dirs fs p =
     list_all (\<lambda>n. fs (Path (is_absolute p) (take n (parts p))) = Some Dir)
              [1..<length (parts p)]"

definition lookup :: "filesystem \<Rightarrow> path \<Rightarrow> node option" where
  "lookup fs p =
     (if parts p = [] then Some Dir
      else if ancestors_are_dirs fs p then fs p
      else None)"

definition path_exists :: "filesystem \<Rightarrow> path \<Rightarrow> bool" where
  "path_exists fs p = (lookup fs p \<noteq> None)"

definition quoted :: "path \<Rightarrow> string" where
  "quoted p = [CHR 0x27] @ str_path p @ [CHR 0x27]"

definition read_bytes :: "filesystem \<Rightarrow> path \<Rightarrow> exn + string" where
  "read_bytes fs p =
     (case lookup fs p of
        None \<Rightarrow> Inl (Exn ''FileNotFoundError''
                       (''[Errno 2] No such file or directory: '' @ quoted p))
      | Some Dir \<Rightarrow> Inl (Exn ''IsADirectoryError''
                          (''[Errno 21] Is a directory: '' @ quoted p))
      | Some (File bs) \<Rightarrow> Inr bs)"

text \<open>
  \<open>read_text(encoding='utf-8')\<close> decodes strictly and reads in universal-newlines mode.
  \<open>utf8_wf\<close> is the well-formedness table of UTF-8 byte sequences; since text is kept as
  its UTF-8 bytes, decoding a well-formed file changes nothing but the line ends.
\<close>

definition cont_byte :: "nat \<Rightarrow> bool" where
  "cont_byte b = (0x80 \<le> b \<and> b \<le> 0xBF)"

fun utf8_wf :: "nat list \<Rightarrow> bool" where
  "utf8_wf [] = True"
| "utf8_wf (a # bs) =
     (if a < 0x80 then utf8_wf bs
      else if 0xC2 \<le> a \<and> a \<le> 0xDF then
        (case bs of b # r \<Rightarrow> cont_byte b \<and> utf8_wf r | _ \<Rightarrow> False)
      else if 0xE0 \<le> a \<and> a \<le> 0xEF then
        (case bs of
           b # c # r \<Rightarrow>
             (if a = 0xE0 then 0xA0 \<le> b \<and> b \<le> 0xBF
              else if a = 0xED then 0x80 \<le> b \<and> b \<le> 0x9F
              else cont_byte b) \<and> cont_byte c \<and> utf8_wf r
         | _ \<Rightarrow> False)
      else if 0xF0 \<le> a \<and> a \<le> 0xF4 then
        (case bs of
           b # c # d # r \<Rightarrow>
             (if a = 0xF0 then 0x90 \<le> b \<and> b \<le> 0xBF
              else if a = 0xF4 then 0x80 \<le> b \<and> b \<le> 0x8F
              else cont_byte b) \<and> cont_byte c \<and> cont_byte d \<and> utf8_wf r
         | _ \<Rightarrow> False)
      else False)"

fun universal_newlines :: "string \<Rightarrow> string" where
  "universal_newlines [] = []"
| "universal_newlines (c # cs) =
     (if c = CHR 0x0D then
        (case cs of
           [] \<Rightarrow> [CHR ''\<newline>'']
         | d # ds \<Rightarrow> if d = CHR ''\<newline>'' then CHR ''\<newline>'' # universal_newlines ds
                     else CHR ''\<newline>'' # universal_newlines cs)
      else c # universal_newlines cs)"

definition read_text :: "filesystem \<Rightarrow> path \<Rightarrow> exn + string" where
  "read_text fs p =
     (case read_bytes fs p of
        Inl e \<Rightarrow> Inl e
      | Inr bs \<Rightarrow>
          if utf8_wf (map of_char bs) then Inr (universal_newlines bs)
          else Inl (Exn ''UnicodeDecodeError'' ''invalid utf-8''))"

text \<open>
  \<open>write_text\<close> creates or truncates the file; its directory has to exist. \<open>stat_size\<close> is
  \<open>stat().st_size\<close>, called by the program only on a file it has just read or written.
\<close>

definition write_text :: "filesystem \<Rightarrow> path \<Rightarrow> string \<Rightarrow> exn + filesystem" where
  "write_text fs p s =
     (case lookup fs p of
        Some Dir \<Rightarrow> Inl (Exn ''IsADirectoryError''
                          (''[Errno 21] Is a directory: '' @ quoted p))
      | _ \<Rightarrow>
         (case lookup fs (path_parent p) of
            Some Dir \<Rightarrow> Inr (fs(p \<mapsto> File s))
          | Some (File _) \<Rightarrow> Inl (Exn ''NotADirectoryError''
                                   (''[Errno 20] Not a directory: '' @ quoted p))
          | None \<Rightarrow> Inl (Exn ''FileNotFoundError''
                         (''[Errno 2] No such file or directory: '' @ quoted p))))"

definition stat_size :: "filesystem \<Rightarrow> path \<Rightarrow> exn + nat" where
  "stat_size fs p =
     (case lookup fs p of
        None \<Rightarrow> Inl (Exn ''FileNotFoundError''
                       (''[Errno 2] No such file or directory: '' @ quoted p))
      | Some Dir \<Rightarrow> Inr 0
      | Some (File bs) \<Rightarrow> Inr (length bs))"

section \<open>ImageProcessor\<close>

text \<open>
  The MIME table, \<open>str.lower\<close> on the characters the table can match, and
  \<open>base64.b64encode\<close> on the bytes of a file.
\<close>

definition supported_formats :: "(string \<times> string) list" where
  "supported_formats =
     [(''.png'', ''image/png''), (''.jpg'', ''image/jpeg''), (''.jpeg'', ''image/jpeg''),
      (''.gif'', ''image/gif''), (''.bmp'', ''image/bmp''), (''.webp'', ''image/webp''),
      (''.svg'', ''image/svg+xml'')]"

definition ascii_lower :: "char \<Rightarrow> char" where
  "ascii_lower c =
     (let n = (of_char c :: nat) in if 65 \<le> n \<and> n \<le> 90 then char_of (n + 32) else c)"

definition b64_alphabet :: string where
  "b64_alphabet = ''ABCDEFGHIJKLMNOPQRSTUVWXYZabcdefghijklmnopqrstuvwxyz0123456789+/''"

definition b64_char :: "nat \<Rightarrow> char" where
  "b64_char n = b64_alphabet ! (n mod 64)"

fun b64encode :: "nat list \<Rightarrow> string" where
  "b64encode [] = []"
| "b64encode [a] =
     [b64_char (a div 4), b64_char ((a mod 4) * 16), CHR ''='', CHR ''='']"
| "b64encode [a, b] =
     [b64_char (a div 4), b64_char ((a mod 4) * 16 + b div 16),
      b64_char ((b mod 16) * 4), CHR ''='']"
| "b64encode (a # b # c # r) =
     [b64_char (a div 4), b64_char ((a mod 4) * 16 + b div 16),
      b64_char ((b mod 16) * 4 + c div 64), b64_char (c mod 64)] @ b64encode r"

text \<open>
  The lines the processor prints are kept as values: an image embedded (file name and size),
  an image that could not be processed, an image not found, a file that could not be
  encoded.
\<close>

datatype diagnostic =
    Embedded string nat
  | ProcessFailed string string
  | NotFound string
  | EncodeFailed path string

definition to_base64 :: "filesystem \<Rightarrow> path \<Rightarrow> string option \<times> diagnostic list" where
  "to_base64 fs file_path =
     (let mime_type = (case map_of supported_formats (map ascii_lower (path_suffix file_path)) of
                         None \<Rightarrow> ''image/png''
                       | Some m \<Rightarrow> m)
      in case read_bytes fs file_path of
           Inl e \<Rightarrow> (None, [EncodeFailed file_path (str_exn e)])
         | Inr img_data \<Rightarrow>
             (Some (''data:'' @ mime_type @ '';base64,'' @ b64encode (map of_char img_data)), []))"

text \<open>
  \<open>_find_image_file\<close>: the loop over \<open>path_attempts\<close> with its two branches, then the
  loop over \<open>common_dirs\<close>.
\<close>

definition path_attempts :: "string \<Rightarrow> path \<Rightarrow> path list" where
  "path_attempts image_path base_dir =
     [path_of_string image_path,
      joinpath base_dir image_path,
      joinpath base_dir (path_name (path_of_string image_path)),
      joinpath base_dir (lstrip_slash image_path)]"

fun first_attempt :: "filesystem \<Rightarrow> path list \<Rightarrow> path option" where
  "first_attempt fs [] = None"
| "first_attempt fs (p # ps) =
     (if is_absolute p \<and> path_exists fs p then Some p
      else if \<not> is_absolute p \<and> path_exists fs p then Some p
      else first_attempt fs ps)"

definition common_dirs :: "string list" where
  "common_dirs = [''images'', ''img'', ''assets'', ''static'', ''media'']"

fun search_common :: "filesystem \<Rightarrow> path \<Rightarrow> string \<Rightarrow> string list \<Rightarrow> path option" where
  "search_common fs base_dir filename [] = None"
| "search_common fs base_dir filename (dir_name # ds) =
     (let img_dir = joinpath base_dir dir_name
      in if path_exists fs img_dir then
           (let img_file = joinpath img_dir filename
            in if path_exists fs img_file then Some img_file
               else search_common fs base_dir filename ds)
         else search_common fs base_dir filename ds)"

definition find_image_file :: "filesystem \<Rightarrow> string \<Rightarrow> path \<Rightarrow> path option" where
  "find_image_file fs image_path base_dir =
     (case first_attempt fs (path_attempts image_path base_dir) of
        Some p \<Rightarrow> Some p
      | None \<Rightarrow> search_common fs base_dir (path_name (path_of_string image_path)) common_dirs)"

text \<open>
  \<open>self.pattern\<close> is \<^verbatim>\<open>!\[([^\]]*)\]\(([^)]+)\)\<close>. At a start position it reads \<open>![\<close>,
  then every character up to the next \<open>]\<close>, then \<open>](\<close>, then every character up to the
  next \<open>)\<close>, at least one, then \<open>)\<close>. A shorter run for either group is followed by a
  character of the same class, never by the literal the pattern needs next, so backtracking
  finds no other match. \<open>match_image\<close> returns both groups and the text after the match.
\<close>

definition match_image :: "string \<Rightarrow> (string \<times> string \<times> string) option" where
  "match_image s =
     (if prefix ''!['' s then
        (let t = drop 2 s;
             alt = takeWhile (\<lambda>c. c \<noteq> CHR '']'') t;
             u = drop (length alt) t
         in if prefix '']('' u then
              (let v = drop 2 u;
                   p = takeWhile (\<lambda>c. c \<noteq> CHR '')'') v;
                   w = drop (length p) v
               in if p \<noteq> [] \<and> prefix '')'' w then Some (alt, p, drop 1 w) else None)
            else None)
      else None)"

definition group0 :: "string \<Rightarrow> string \<Rightarrow> string" where
  "group0 alt_text image_path = ''!['' @ alt_text @ '']('' @ image_path @ '')''"

definition is_remote :: "string \<Rightarrow> bool" where
  "is_remote image_path =
     (prefix ''http://'' image_path \<or> prefix ''https://'' image_path \<or> prefix ''data:'' image_path)"

text \<open>
  \<open>replace_image\<close> is the closure of the same name in \<open>process\<close>: it returns the
  replacement text, what it adds to \<open>image_count\<close>, and what it prints.
\<close>

definition replace_image ::
  "filesystem \<Rightarrow> path \<Rightarrow> string \<Rightarrow> string \<Rightarrow> string \<times> nat \<times> diagnostic list" where
  "replace_image fs base_dir alt_text image_path =
     (if is_remote image_path then (group0 alt_text image_path, 0, [])
      else
        (case find_image_file fs image_path base_dir of
           None \<Rightarrow> (group0 alt_text image_path, 0, [NotFound image_path])
         | Some img_file \<Rightarrow>
             if path_exists fs img_file then
               (case to_base64 fs img_file of
                  (None, ds) \<Rightarrow> (group0 alt_text image_path, 0, ds)
                | (Some data_url, ds) \<Rightarrow>
                    if data_url \<noteq> [] then
                      (case stat_size fs img_file of
                         Inl e \<Rightarrow> (group0 alt_text image_path, 0,
                                    ds @ [ProcessFailed image_path (str_exn e)])
                       | Inr sz \<Rightarrow> (group0 alt_text data_url, 1,
                                     ds @ [Embedded (path_name img_file) sz]))
                    else (group0 alt_text image_path, 0, ds))
             else (group0 alt_text image_path, 0, [NotFound image_path])))"

lemma match_image_eq:
  "match_image s = Some (a, p, r) \<Longrightarrow> s = group0 a p @ r"
proof -
  assume m: "match_image s = Some (a, p, r)"
  define t where "t = drop 2 s"
  define u where "u = drop (length a) t"
  define v where "v = drop 2 u"
  define w where "w = drop (length p) v"
  from m have p1: "prefix ''!['' s"
    and a: "a = takeWhile (\<lambda>c. c \<noteq> CHR '']'') t"
    and p2: "prefix '']('' (drop (length (takeWhile (\<lambda>c. c \<noteq> CHR '']'') t)) t)"
    unfolding match_image_def t_def by (auto simp: Let_def split: if_splits)
  from p2 a have p2': "prefix '']('' u" by (simp add: u_def)
  from m a have p: "p = takeWhile (\<lambda>c. c \<noteq> CHR '')'') v"
    and p3: "prefix '')'' w" and r: "r = drop 1 w"
    unfolding match_image_def t_def u_def v_def w_def
    by (auto simp: Let_def split: if_splits)
  from p1 have s: "s = ''!['' @ t" by (auto simp: prefix_def t_def)
  have t: "t = a @ u" unfolding u_def a by (metis append_take_drop_id takeWhile_eq_take)
  from p2' have u: "u = '']('' @ v" by (auto simp: prefix_def v_def)
  have v: "v = p @ w" unfolding w_def p by (metis append_take_drop_id takeWhile_eq_take)
  from p3 r have w: "w = '')'' @ r" by (auto simp: prefix_def)
  show ?thesis unfolding group0_def using s t u v w by simp
qed

lemma match_image_shorter:
  "match_image s = Some (a, p, r) \<Longrightarrow> length r < length s"
  by (drule match_image_eq) (simp add: group0_def)

text \<open>
  \<open>image_sub\<close> is \<open>re.sub(self.pattern, replace_image, content)\<close>: leftmost matches,
  left to right, each match at least five characters long.
\<close>

function image_sub ::
  "filesystem \<Rightarrow> path \<Rightarrow> string \<Rightarrow> string \<times> nat \<times> diagnostic list" where
  "image_sub fs base_dir s =
     (case match_image s of
        Some (alt_text, image_path, rest) \<Rightarrow>
          (case replace_image fs base_dir alt_text image_path of
             (repl, n, ds) \<Rightarrow>
               (case image_sub fs base_dir rest of
                  (out, image_count, ds') \<Rightarrow> (repl @ out, n + image_count, ds @ ds')))
      | None \<Rightarrow>
          (case s of
             [] \<Rightarrow> ([], 0, [])
           | c # cs \<Rightarrow>
               (case image_sub fs base_dir cs of
                  (out, image_count, ds') \<Rightarrow> (c # out, image_count, ds'))))"
  by pat_completeness auto
termination
  by (relation "measure (\<lambda>(fs, base_dir, s). length s)") (auto dest: match_image_shorter)

definition image_process ::
  "filesystem \<Rightarrow> string \<Rightarrow> path \<Rightarrow> string \<times> nat \<times> diagnostic list" where
  "image_process fs content base_dir = image_sub fs base_dir content"

function extract_images :: "string \<Rightarrow> string list" where
  "extract_images s =
     (case match_image s of
        Some (alt_text, image_path, rest) \<Rightarrow> image_path # extract_images rest
      | None \<Rightarrow> (case s of [] \<Rightarrow> [] | c # cs \<Rightarrow> extract_images cs))"
  by pat_completeness auto
termination
  by (relation "measure length") (auto dest: match_image_shorter)

declare image_sub.simps [simp del] extract_images.simps [simp del]

section \<open>Themes\<close>

text \<open>
  The CSS and JavaScript texts of the themes, and the diagram bootstrap script of
  \<open>MermaidProcessor.get_mermaid_script\<close>, are long literals that the program only
  concatenates. They are parameters of the model: a record of seven texts.
\<close>

record payloads =
  default_styles :: string
  default_scripts :: string
  minimal_styles :: string
  minimal_scripts :: string
  professional_styles :: string
  professional_scripts :: string
  mermaid_script :: string

text \<open>The three theme classes, and \<open>get_theme\<close> with its dictionary and its default.\<close>

datatype theme = DefaultTheme | MinimalTheme | ProfessionalTheme

definition get_mermaid_script :: "payloads \<Rightarrow> string" where
  "get_mermaid_script A = mermaid_script A"

fun get_styles :: "payloads \<Rightarrow> theme \<Rightarrow> string" where
  "get_styles A DefaultTheme = default_styles A"
| "get_styles A MinimalTheme = minimal_styles A"
| "get_styles A ProfessionalTheme = professional_styles A"

fun theme_scripts :: "payloads \<Rightarrow> theme \<Rightarrow> string" where
  "theme_scripts A DefaultTheme = default_scripts A"
| "theme_scripts A MinimalTheme = minimal_scripts A"
| "theme_scripts A ProfessionalTheme = professional_scripts A"

definition get_scripts :: "payloads \<Rightarrow> theme \<Rightarrow> bool \<Rightarrow> string" where
  "get_scripts A th has_mermaid_flag =
     (let scripts = theme_scripts A th
      in if has_mermaid_flag then scripts @ get_mermaid_script A else scripts)"

definition themes :: "(string \<times> theme) list" where
  "themes =
     [(''default'', DefaultTheme), (''minimal'', MinimalTheme),
      (''professional'', ProfessionalTheme)]"

definition get_theme :: "string \<Rightarrow> theme" where
  "get_theme theme_name =
     (case map_of themes theme_name of None \<Rightarrow> DefaultTheme | Some theme_class \<Rightarrow> theme_class)"

text \<open>
  \<open>BaseTheme.render\<close> and its helpers, which no theme overrides. \<open>str_nat\<close> is \<open>str\<close> on
  the image count; the \<open>config\<close> argument is never read and is left out.
\<close>

definition digit_char :: "nat \<Rightarrow> char" where
  "digit_char d = char_of (48 + d)"

function str_nat :: "nat \<Rightarrow> string" where
  "str_nat n = (if n < 10 then [digit_char n] else str_nat (n div 10) @ [digit_char (n mod 10)])"
  by pat_completeness auto
termination
  by (relation "measure id") auto

declare str_nat.simps [simp del]

definition create_header :: "string \<Rightarrow> nat \<Rightarrow> string" where
  \<open>create_header title image_count =
     ''\<newline>'' @
     ''        <div class="header">\<newline>'' @
     ''            <h1>'' @
     title @
     ''</h1>\<newline>'' @
     ''            <p class="meta">'' @
     [CHR 0xE5, CHR 0x8C, CHR 0x85, CHR 0xE5, CHR 0x90, CHR 0xAB] @
     '' '' @
     str_nat image_count @
     '' '' @
     [CHR 0xE5, CHR 0xBC, CHR 0xA0, CHR 0xE5, CHR 0x9B, CHR 0xBE, CHR 0xE7, CHR 0x89, CHR 0x87] @
     ''</p>\<newline>'' @
     ''        </div>\<newline>'' @
     ''        ''\<close>

definition create_footer :: string where
  \<open>create_footer =
     ''\<newline>'' @
     ''        <div class="footer">\<newline>'' @
     ''            <p>'' @
     [CHR 0xE7, CHR 0x94, CHR 0xB1] @
     '' Markdown to HTML Converter '' @
     [CHR 0xE7, CHR 0x94, CHR 0x9F, CHR 0xE6, CHR 0x88, CHR 0x90] @
     ''</p>\<newline>'' @
     ''        </div>\<newline>'' @
     ''        ''\<close>

definition create_toc_section :: "string \<Rightarrow> string" where
  \<open>create_toc_section toc_html =
     (if toc_html = [] then []
      else
     ''\<newline>'' @
     ''        <div class="toc-sidebar" id="toc-sidebar">\<newline>'' @
     ''            <h2>'' @
     [CHR 0xE7, CHR 0x9B, CHR 0xAE, CHR 0xE5, CHR 0xBD, CHR 0x95] @
     ''</h2>\<newline>'' @
     ''            '' @
     toc_html @
     ''\<newline>'' @
     ''        </div>\<newline>'' @
     ''        '')\<close>

definition toc_section_of :: "string \<Rightarrow> string" where
  "toc_section_of toc_html = (if toc_html \<noteq> [] then create_toc_section toc_html else [])"

definition render ::
  "payloads \<Rightarrow> theme \<Rightarrow> string \<Rightarrow> string \<Rightarrow> string \<Rightarrow> nat \<Rightarrow> bool \<Rightarrow> string" where
  \<open>render A th body_html toc_html title image_count has_mermaid_flag =
     (let styles = get_styles A th;
          scripts = get_scripts A th has_mermaid_flag;
          toc_section = toc_section_of toc_html
      in
     ''<!DOCTYPE html>\<newline>'' @
     ''<html lang="zh-CN">\<newline>'' @
     ''<head>\<newline>'' @
     ''    <meta charset="UTF-8">\<newline>'' @
     ''    <meta name="viewport" content="width=device-width, initial-scale=1.0">\<newline>'' @
     ''    <title>'' @
     title @
     ''</title>\<newline>'' @
     ''    <style>\<newline>'' @
     ''        '' @
     styles @
     ''\<newline>'' @
     ''    </style>\<newline>'' @
     ''</head>\<newline>'' @
     ''<body>\<newline>'' @
     ''    <div class="container">\<newline>'' @
     ''        '' @
     create_header title image_count @
     ''\<newline>'' @
     ''        '' @
     toc_section @
     ''\<newline>'' @
     ''        <div class="content" id="main-content">\<newline>'' @
     ''            '' @
     body_html @
     ''\<newline>'' @
     ''        </div>\<newline>'' @
     ''        '' @
     create_footer @
     ''\<newline>'' @
     ''    </div>\<newline>'' @
     ''    <script>\<newline>'' @
     ''        '' @
     scripts @
     ''\<newline>'' @
     ''    </script>\<newline>'' @
     ''</body>\<newline>'' @
     ''</html>'')\<close>

definition create_html_document ::
  "payloads \<Rightarrow> string \<Rightarrow> string \<Rightarrow> string \<Rightarrow> string \<Rightarrow> nat \<Rightarrow> bool \<Rightarrow> string" where
  "create_html_document A body_html toc_html title theme_name image_count has_mermaid_flag =
     render A (get_theme theme_name) body_html toc_html title image_count has_mermaid_flag"

section \<open>HTMLConverter\<close>

text \<open>
  The Markdown library is a parameter: a function from the text to the exception it raises
  or to the body fragment and the attributes \<open>toc\<close> and \<open>Meta\<close> the program reads with
  \<open>getattr\<close> (absent attributes are \<open>None\<close>).
\<close>

record md_output =
  html :: string
  toc :: "string option"
  Meta :: "(string \<times> string list) list option"

type_synonym markdown = "string \<Rightarrow> exn + md_output"

text \<open>
  \<open>ConversionResult\<close>. The duration is the difference of two clock readings, kept in the
  clock's own unit.
\<close>

record conversion_result =
  success :: bool
  output_path :: path
  file_size :: nat
  image_count :: nat
  duration :: int
  error_message :: "string option"

text \<open>
  What a conversion reads and changes: the files, the clock (\<open>datetime.now()\<close> returns the
  next reading) and the lines printed.
\<close>

record world =
  files :: filesystem
  clock :: "nat \<Rightarrow> int"
  ticks :: nat
  console :: "diagnostic list"

definition datetime_now :: "world \<Rightarrow> int \<times> world" where
  "datetime_now w = (clock w (ticks w), w\<lparr>ticks := Suc (ticks w)\<rparr>)"

text \<open>\<open>output_path or source_path.with_suffix('.html')\<close>: a path object is never falsy.\<close>

definition output_or_default :: "path option \<Rightarrow> path \<Rightarrow> exn + path" where
  "output_or_default output source_path =
     (case output of Some p \<Rightarrow> Inr p | None \<Rightarrow> with_suffix source_path ''.html'')"

definition not_found_message :: "path \<Rightarrow> string" where
  "not_found_message source_path =
     [CHR 0xE6, CHR 0x96, CHR 0x87, CHR 0xE4, CHR 0xBB, CHR 0xB6, CHR 0xE4, CHR 0xB8, CHR 0x8D, CHR 0xE5, CHR 0xAD, CHR 0x98, CHR 0xE5, CHR 0x9C, CHR 0xA8] @
     '': '' @
     str_path source_path"

definition get_title :: "(string \<times> string list) list \<Rightarrow> path \<Rightarrow> exn + string" where
  "get_title metadata source_path =
     (if metadata \<noteq> [] then
        (case (case map_of metadata ''title'' of
                 None \<Rightarrow> [path_stem source_path]
               | Some v \<Rightarrow> v) of
           [] \<Rightarrow> Inl (Exn ''IndexError'' ''list index out of range'')
         | t # _ \<Rightarrow> Inr t)
      else Inr (path_stem source_path))"

text \<open>
  \<open>convert_try\<close> is the body of the \<open>try\<close> statement of \<open>convert\<close>: its value is the
  result returned, or the exception raised, together with the world at that moment.
  \<open>convert\<close> adds the clock reading before it and the \<open>except Exception\<close> handler after
  it. \<open>Inl\<close> as the value of \<open>convert\<close> is an exception that leaves the method.
\<close>

definition convert_try ::
  "markdown \<Rightarrow> payloads \<Rightarrow> world \<Rightarrow> int \<Rightarrow> path \<Rightarrow> path option \<Rightarrow> string \<Rightarrow> bool \<Rightarrow> bool
     \<Rightarrow> (exn + conversion_result) \<times> world" where
  "convert_try md A w start_time source_path output theme_name embed_images process_mermaid =
     (if \<not> path_exists (files w) source_path then
        (case output_or_default output source_path of
           Inl e \<Rightarrow> (Inl e, w)
         | Inr out \<Rightarrow>
             (Inr \<lparr>success = False, output_path = out, file_size = 0, image_count = 0,
                   duration = 0,
                   error_message = Some (not_found_message source_path)\<rparr>, w))
      else
        (case read_text (files w) source_path of
           Inl e \<Rightarrow> (Inl e, w)
         | Inr md_content \<Rightarrow>
             (case (if embed_images
                    then image_process (files w) md_content (path_parent source_path)
                    else (md_content, 0, [])) of
                (md_content1, count, ds) \<Rightarrow>
                  (let w1 = w\<lparr>console := console w @ ds\<rparr>;
                       md_content2 = (if process_mermaid then mermaid_process md_content1
                                      else md_content1)
                   in case md md_content2 of
                        Inl e \<Rightarrow> (Inl e, w1)
                      | Inr m \<Rightarrow>
                          (let html_body = html m;
                               toc_html = (case toc m of None \<Rightarrow> [] | Some t \<Rightarrow> t);
                               metadata = (case Meta m of None \<Rightarrow> [] | Some d \<Rightarrow> d)
                           in case get_title metadata source_path of
                                Inl e \<Rightarrow> (Inl e, w1)
                              | Inr title \<Rightarrow>
                                  (let full_html = create_html_document A html_body toc_html
                                                     title theme_name count process_mermaid
                                   in case output_or_default output source_path of
                                        Inl e \<Rightarrow> (Inl e, w1)
                                      | Inr out \<Rightarrow>
                                          (case write_text (files w1) out full_html of
                                             Inl e \<Rightarrow> (Inl e, w1)
                                           | Inr fs' \<Rightarrow>
                                               (case datetime_now (w1\<lparr>files := fs'\<rparr>) of
                                                  (end_time, w2) \<Rightarrow>
                                                    (case stat_size (files w2) out of
                                                       Inl e \<Rightarrow> (Inl e, w2)
                                                     | Inr sz \<Rightarrow>
                                                         (Inr \<lparr>success = True,
                                                               output_path = out,
                                                               file_size = sz,
                                                               image_count = count,
                                                               duration = end_time - start_time,
                                                               error_message = None\<rparr>,
                                                          w2))))))))))"

definition convert ::
  "markdown \<Rightarrow> payloads \<Rightarrow> world \<Rightarrow> path \<Rightarrow> path option \<Rightarrow> string \<Rightarrow> bool \<Rightarrow> bool
     \<Rightarrow> (exn + conversion_result) \<times> world" where
  "convert md A w source_path output theme_name embed_images process_mermaid =
     (case datetime_now w of
        (start_time, w0) \<Rightarrow>
          (case convert_try md A w0 start_time source_path output theme_name
                  embed_images process_mermaid of
             (Inr result, w1) \<Rightarrow> (Inr result, w1)
           | (Inl e, w1) \<Rightarrow>
               (case datetime_now w1 of
                  (end_time, w2) \<Rightarrow>
                    (case output_or_default output source_path of
                       Inl e' \<Rightarrow> (Inl e', w2)
                     | Inr out \<Rightarrow>
                         (Inr \<lparr>success = False, output_path = out, file_size = 0,
                               image_count = 0, duration = end_time - start_time,
                               error_message = Some (str_exn e)\<rparr>, w2)))))"

text \<open>\<open>convert_batch\<close>: the loop appends one result per source path; an exception ends it.\<close>

fun convert_batch_loop ::
  "markdown \<Rightarrow> payloads \<Rightarrow> world \<Rightarrow> conversion_result list \<Rightarrow> path list \<Rightarrow> path option
     \<Rightarrow> string \<Rightarrow> bool \<Rightarrow> bool \<Rightarrow> (exn + conversion_result list) \<times> world" where
  "convert_batch_loop md A w results [] output_dir theme_name embed_images process_mermaid =
     (Inr results, w)"
| "convert_batch_loop md A w results (source_path # rest) output_dir theme_name
       embed_images process_mermaid =
     (let output = (case output_dir of
                      Some d \<Rightarrow> Some (joinpath d (path_stem source_path @ ''.html''))
                    | None \<Rightarrow> None)
      in case convert md A w source_path output theme_name embed_images process_mermaid of
           (Inl e, w') \<Rightarrow> (Inl e, w')
         | (Inr result, w') \<Rightarrow>
             convert_batch_loop md A w' (results @ [result]) rest output_dir theme_name
               embed_images process_mermaid)"

definition convert_batch ::
  "markdown \<Rightarrow> payloads \<Rightarrow> world \<Rightarrow> path list \<Rightarrow> path option \<Rightarrow> string \<Rightarrow> bool \<Rightarrow> bool
     \<Rightarrow> (exn + conversion_result list) \<times> world" where
  "convert_batch md A w source_paths output_dir theme_name embed_images process_mermaid =
     convert_batch_loop md A w [] source_paths output_dir theme_name embed_images
       process_mermaid"

section \<open>The resolution order as the specification lists it\<close>



section \<open>Sample values\<close>

text \<open>
  A directory \<open>docs\<close> with one file; a directory \<open>pic\<close> beside a file \<open>docs/pic\<close>;
  short texts in the place of the theme payloads; a
  stand-in for the Markdown library that wraps the text in a paragraph beside a table of
  contents without entries, returns empty fragments for the empty text and raises on a
  text containing \<open>FAIL\<close>; a world with four
  source files in the current directory, two of them empty.
\<close>

definition fs_example :: filesystem where
  "fs_example =
     [Path False [''docs''] \<mapsto> Dir,
      Path False [''docs'', ''b''] \<mapsto> File ''Man'']"


definition sample_payloads :: payloads where
  "sample_payloads =
     \<lparr>default_styles = ''/* default styles */'',
      default_scripts = ''/* default scripts */'',
      minimal_styles = ''/* minimal styles */'',
      minimal_scripts = ''/* minimal scripts */'',
      professional_styles = ''/* professional styles */'',
      professional_scripts = ''/* professional scripts */'',
      mermaid_script = ''/* mermaid bootstrap */''\<rparr>"

definition sample_markdown :: markdown where
  \<open>sample_markdown text =
     (if text = [] then Inr \<lparr>html = [], toc = Some [], Meta = Some []\<rparr>
      else if sublist ''FAIL'' text then Inl (Exn ''ValueError'' ''transform failed'')
      else Inr \<lparr>html = ''<p>'' @ text @ ''</p>'',
                toc = Some (''<div class="toc">\<newline>'' @
                            ''<ul></ul>\<newline>'' @
                            ''</div>\<newline>''),
                Meta = Some []\<rparr>)\<close>

definition sample_world :: world where
  "sample_world =
     \<lparr>files = [Path False [''a.md''] \<mapsto> File [],
               Path False [''b.md''] \<mapsto> File ''FAIL'',
               Path False [''c.md''] \<mapsto> File ''hello'',
               Path False [''a<!--.md''] \<mapsto> File []],
      clock = (\<lambda>n. int n), ticks = 0, console = []\<rparr>"

section \<open>A well-formed document\<close>










section \<open>The diagram rewriter and its presence query\<close>

text \<open>
  A match at a position needs the opening fence there and a closing fence somewhere after
  it; text without a closing fence is left as it is, and a pass copies a fence-free prefix
  of its output from its input.
\<close>

lemma match_mermaid_Nil: "match_mermaid [] = None"
  by (simp add: match_mermaid_def fence_open_def)

lemma lazy_until_None:
  "lazy_until pat s = None \<longleftrightarrow> \<not> sublist pat s"
proof (induction s)
  case Nil
  then show ?case by simp
next
  case (Cons c cs)
  then show ?case
    by (auto simp: sublist_Cons_right split: option.splits)
qed

lemma match_mermaid_None_iff:
  "match_mermaid s = None \<longleftrightarrow>
     \<not> (\<exists>t. s = fence_open @ t \<and> sublist fence_close t)"
proof (cases "prefix fence_open s")
  case True
  then obtain t where t: "s = fence_open @ t" by (auto simp: prefix_def)
  then have "match_mermaid s = lazy_until fence_close t"
    by (simp add: match_mermaid_def)
  with t show ?thesis by (simp add: lazy_until_None)
next
  case False
  then show ?thesis by (auto simp: match_mermaid_def)
qed

lemma match_mermaid_hd:
  "c \<noteq> CHR 0x60 \<Longrightarrow> match_mermaid (c # cs) = None"
  by (simp add: match_mermaid_def fence_open_def)

lemma has_mermaid_skip:
  "CHR 0x60 \<notin> set A \<Longrightarrow> has_mermaid (A @ X) = has_mermaid X"
proof (induction A)
  case Nil
  then show ?case by simp
next
  case (Cons a A)
  then have "match_mermaid (a # A @ X) = None"
    using match_mermaid_hd [of a "A @ X"] by auto
  with Cons show ?case by simp
qed

lemma fence_open_no_lt: "CHR ''<'' \<notin> set fence_open"
  by (simp add: fence_open_def)

lemma has_mermaid_body:
  assumes "\<not> sublist fence_open (body @ ''\<newline>'')"
  shows "has_mermaid (body @ div_close @ P) = has_mermaid P"
  using assms
proof (induction body)
  case Nil
  have "CHR 0x60 \<notin> set div_close" by (simp add: div_close_def)
  then show ?case using has_mermaid_skip [of div_close P] by simp
next
  case (Cons c body)
  let ?A = "c # body @ ''\<newline>''"
  from Cons.prems have np: "\<not> prefix fence_open ?A" and ns: "\<not> sublist fence_open (body @ ''\<newline>'')"
    by (auto simp: sublist_Cons_right)
  have "\<not> prefix fence_open (?A @ ''</div>'' @ P)"
  proof
    assume "prefix fence_open (?A @ ''</div>'' @ P)"
    then obtain us where us: "fence_open = ?A @ us" "prefix us (''</div>'' @ P)"
      using np unfolding prefix_append by blast
    show False
    proof (cases us)
      case Nil
      with us np show False by simp
    next
      case (Cons u us')
      with us(2) have "u = CHR ''<''" by simp
      with us(1) Cons have "fence_open = ?A @ CHR ''<'' # us'" by simp
      then have "CHR ''<'' \<in> set fence_open" by (metis in_set_conv_decomp)
      with fence_open_no_lt show False by simp
    qed
  qed
  then have "match_mermaid (c # body @ div_close @ P) = None"
    by (simp add: match_mermaid_def div_close_def)
  with Cons.IH [OF ns] show ?case by simp
qed

lemma extract_diagrams_Cons_None:
  "match_mermaid (c # cs) = None \<Longrightarrow> extract_diagrams (c # cs) = extract_diagrams cs"
  by (simp add: mermaid_process.simps extract_diagrams.simps)

lemma extract_diagrams_Some:
  "match_mermaid s = Some (b, r) \<Longrightarrow> extract_diagrams s = b # extract_diagrams r"
  by (simp add: mermaid_process.simps extract_diagrams.simps)

lemma mermaid_process_Some:
  "match_mermaid s = Some (b, r) \<Longrightarrow>
     mermaid_process s = div_open @ b @ div_close @ mermaid_process r"
  by (simp add: mermaid_process.simps extract_diagrams.simps)

lemma mermaid_process_Cons_None:
  "match_mermaid (c # cs) = None \<Longrightarrow> mermaid_process (c # cs) = c # mermaid_process cs"
  by (simp add: mermaid_process.simps extract_diagrams.simps)

lemma mermaid_process_Nil: "mermaid_process [] = []"
  by (simp add: mermaid_process.simps match_mermaid_Nil)

lemma mermaid_process_id:
  "\<not> sublist fence_close s \<Longrightarrow> mermaid_process s = s"
proof (induction s)
  case Nil
  then show ?case by (simp add: mermaid_process_Nil)
next
  case (Cons c cs)
  have "match_mermaid (c # cs) = None"
  proof (rule ccontr)
    assume "match_mermaid (c # cs) \<noteq> None"
    then obtain t where t: "c # cs = fence_open @ t" "sublist fence_close t"
      unfolding match_mermaid_None_iff by blast
    from t(2) have "sublist fence_close (fence_open @ t)"
      by (simp add: sublist_append)
    with t(1) Cons.prems show False by simp
  qed
  moreover from Cons.prems have "\<not> sublist fence_close cs"
    by (auto simp: sublist_Cons_right)
  ultimately show ?case using Cons.IH by (simp add: mermaid_process_Cons_None)
qed

lemma mermaid_process_prefix:
  "prefix q (mermaid_process t) \<Longrightarrow> CHR ''<'' \<notin> set q \<Longrightarrow>
     \<exists>t'. t = q @ t' \<and> mermaid_process t = q @ mermaid_process t'"
proof (induction q arbitrary: t)
  case Nil
  then show ?case by simp
next
  case (Cons x q)
  show ?case
  proof (cases "match_mermaid t")
    case (Some m)
    then have "\<exists>z. mermaid_process t = CHR ''<'' # z"
      by (cases m) (simp add: div_open_def mermaid_process_Some)
    with Cons.prems show ?thesis by auto
  next
    case None
    show ?thesis
    proof (cases t)
      case Nil
      with None Cons.prems show ?thesis by (simp add: mermaid_process_Nil)
    next
      case (Cons c cs)
      with None have eq: "mermaid_process t = c # mermaid_process cs"
        by (simp add: mermaid_process_Cons_None)
      with Cons.prems have "x = c" "prefix q (mermaid_process cs)" by auto
      with Cons.IH [of cs] Cons.prems(2) obtain t' where
        "cs = q @ t'" "mermaid_process cs = q @ mermaid_process t'" by auto
      with eq \<open>x = c\<close> Cons show ?thesis by simp
    qed
  qed
qed

lemma no_match_after_process:
  assumes "match_mermaid (c # cs) = None"
  shows "match_mermaid (c # mermaid_process cs) = None"
proof (rule ccontr)
  assume a: "match_mermaid (c # mermaid_process cs) \<noteq> None"
  then obtain t where t: "c # mermaid_process cs = fence_open @ t" "sublist fence_close t"
    unfolding match_mermaid_None_iff by blast
  define q where "q = tl fence_open"
  have fo: "fence_open = CHR 0x60 # q" by (simp add: q_def fence_open_def)
  from t(1) have "c # mermaid_process cs = CHR 0x60 # q @ t"
    unfolding fo by simp
  then have c: "c = CHR 0x60" and pq: "prefix q (mermaid_process cs)"
    by simp_all
  have "CHR ''<'' \<notin> set q" by (simp add: q_def fence_open_def)
  from mermaid_process_prefix [OF pq this] obtain t' where
    t': "cs = q @ t'" "mermaid_process cs = q @ mermaid_process t'" by blast
  have s: "c # cs = fence_open @ t'" using c t' fo by simp
  have "\<not> sublist fence_close t'"
  proof
    assume "sublist fence_close t'"
    with s have "match_mermaid (c # cs) \<noteq> None"
      unfolding match_mermaid_None_iff by blast
    with assms show False by simp
  qed
  then have "mermaid_process t' = t'" by (rule mermaid_process_id)
  with t' have "c # mermaid_process cs = c # cs" by simp
  with a assms show False by simp
qed

text \<open>
  Claim C3, as the code has it. One rewrite pass removes every fence the scan recognises, but the
  body of a rewritten block is copied as it is, so an opening fence line inside a body survives
  the pass and can pair with a closing fence further on. When no rewritten body, followed by
  its line break, contains the opening fence \<^verbatim>\<open>```mermaid\n\<close>, the presence query on
  the output of one pass reports false.
\<close>

theorem mermaid_roundtrip_guarded:
  "\<forall>b \<in> set (extract_diagrams s). \<not> sublist fence_open (b @ ''\<newline>'') \<Longrightarrow>
     \<not> has_mermaid (mermaid_process s)"
proof (induction s rule: mermaid_process.induct)
  case (1 s)
  show ?case
  proof (cases "match_mermaid s")
    case None
    show ?thesis
    proof (cases s)
      case Nil
      then show ?thesis by (simp add: match_mermaid_Nil mermaid_process_Nil)
    next
      case (Cons c cs)
      with None have n: "match_mermaid (c # cs) = None" by simp
      have ih: "\<not> has_mermaid (mermaid_process cs)"
        using "1.IH"(1) [OF None Cons] "1.prems" Cons extract_diagrams_Cons_None [OF n]
        by simp
      show ?thesis
        using ih no_match_after_process [OF n] mermaid_process_Cons_None [OF n] Cons
        by simp
    qed
  next
    case (Some m)
    obtain b r where m: "m = (b, r)" by (cases m)
    with Some have sm: "match_mermaid s = Some (b, r)" by simp
    have ex: "extract_diagrams s = b # extract_diagrams r"
      using extract_diagrams_Some [OF sm] .
    have ih: "\<not> has_mermaid (mermaid_process r)"
      using "1.IH"(2) [OF sm refl] "1.prems" ex by simp
    have nb: "\<not> sublist fence_open (b @ ''\<newline>'')"
      using "1.prems" ex by simp
    have "CHR 0x60 \<notin> set div_open" by (simp add: div_open_def)
    then have "has_mermaid (div_open @ b @ div_close @ mermaid_process r)
                 = has_mermaid (b @ div_close @ mermaid_process r)"
      by (rule has_mermaid_skip)
    also have "\<dots> = has_mermaid (mermaid_process r)"
      using nb by (rule has_mermaid_body)
    finally show ?thesis
      using ih mermaid_process_Some [OF sm] by simp
  qed
qed

theorem mermaid_roundtrip_guarded_witness:
  "extract_diagrams ''```mermaid\<newline>A\<newline>```'' = [''A'']
   \<and> \<not> has_mermaid (mermaid_process ''```mermaid\<newline>A\<newline>```'')"
proof -
  have e: "extract_diagrams ''```mermaid\<newline>A\<newline>```'' = [''A'']"
    by code_simp
  have h: "\<forall>b \<in> set (extract_diagrams ''```mermaid\<newline>A\<newline>```'').
       \<not> sublist fence_open (b @ ''\<newline>'')"
    unfolding e by code_simp
  from mermaid_roundtrip_guarded [OF h] e show ?thesis by simp
qed

text \<open>
  Claim C3 as stated fails: a diagram block whose body is itself an opening fence line,
  followed by one more closing fence. The pass rewrites the outer block, and the presence
  query still finds a fence in the output.
\<close>

theorem mermaid_roundtrip_counterexample:
  "mermaid_process ''```mermaid\<newline>```mermaid\<newline>```\<newline>```'' =
     ''<div class=\"mermaid\">\<newline>```mermaid\<newline></div>\<newline>```''
   \<and> has_mermaid (mermaid_process ''```mermaid\<newline>```mermaid\<newline>```\<newline>```'')"
  by code_simp

section \<open>Image resolution\<close>

text \<open>
  The final component of a path holds no slash, so joining it to a directory appends at most
  one component, and the joined path exists only if the directory does.
\<close>

lemma split_on_no_sep:
  "w \<in> set (split_on sep s) \<Longrightarrow> sep \<notin> set w"
proof (induction s arbitrary: w)
  case Nil
  then show ?case by simp
next
  case (Cons c cs)
  then show ?case
    by (auto split: if_splits list.splits)
qed

lemma split_on_id:
  "sep \<notin> set w \<Longrightarrow> split_on sep w = [w]"
  by (induction w) auto

lemma name_no_slash: "CHR ''/'' \<notin> set (path_name (path_of_string s))"
proof (cases "parts (path_of_string s) = []")
  case True
  then show ?thesis by (simp add: path_name_def)
next
  case False
  then have "last (parts (path_of_string s)) \<in> set (parts (path_of_string s))"
    by (rule last_in_set)
  then have "path_name (path_of_string s) \<in> set (split_on (CHR ''/'') s)"
    using False by (simp add: path_name_def path_of_string_def)
  then show ?thesis by (rule split_on_no_sep)
qed

lemma joinpath_component:
  assumes "CHR ''/'' \<notin> set w"
  shows "joinpath d w = Path (is_absolute d) (parts d @ (if w = [] \<or> w = ''.'' then [] else [w]))"
proof -
  have "split_on (CHR ''/'') w = [w]" using assms by (rule split_on_id)
  moreover have "\<not> prefix ''/'' w" using assms by (auto simp: prefix_def)
  ultimately show ?thesis
    by (simp add: joinpath_def path_of_string_def Let_def)
qed

lemma path_exists_parent:
  assumes "path_exists fs (Path a (ps @ [w]))"
  shows "path_exists fs (Path a ps)"
proof (cases "ps = []")
  case True
  then show ?thesis by (simp add: path_exists_def lookup_def)
next
  case False
  from assms have anc: "ancestors_are_dirs fs (Path a (ps @ [w]))"
    by (auto simp: path_exists_def lookup_def split: if_splits)
  from anc have anc': "\<forall>n \<in> set [1..<length (ps @ [w])].
      fs (Path a (take n (ps @ [w]))) = Some Dir"
    by (simp only: ancestors_are_dirs_def list_all_iff path.sel)
  have all: "\<And>n. 1 \<le> n \<Longrightarrow> n \<le> length ps \<Longrightarrow> fs (Path a (take n ps)) = Some Dir"
  proof -
    fix n assume n: "1 \<le> n" "n \<le> length ps"
    then have "n \<in> set [1..<length (ps @ [w])]" by auto
    with anc' have "fs (Path a (take n (ps @ [w]))) = Some Dir" by blast
    moreover from n have "take n (ps @ [w]) = take n ps" by simp
    ultimately show "fs (Path a (take n ps)) = Some Dir" by simp
  qed
  have "ancestors_are_dirs fs (Path a ps)"
    unfolding ancestors_are_dirs_def list_all_iff using all by auto
  moreover have "fs (Path a ps) = Some Dir"
    using all [of "length ps"] False by (cases ps) auto
  ultimately show ?thesis using False by (simp add: path_exists_def lookup_def)
qed

lemma path_exists_join_component:
  assumes "CHR ''/'' \<notin> set w" and "path_exists fs (joinpath d w)"
  shows "path_exists fs d"
proof (cases "w = [] \<or> w = ''.''")
  case True
  with assms show ?thesis by (cases d) (simp add: joinpath_component)
next
  case False
  with assms have "path_exists fs (Path (is_absolute d) (parts d @ [w]))"
    by (simp add: joinpath_component)
  then have "path_exists fs (Path (is_absolute d) (parts d))"
    by (rule path_exists_parent)
  then show ?thesis by simp
qed

lemma first_attempt_find:
  "first_attempt fs ps = List.find (path_exists fs) ps"
  by (induction ps) auto

lemma search_common_find:
  assumes "CHR ''/'' \<notin> set filename"
  shows "search_common fs base_dir filename ds =
           List.find (path_exists fs) (map (\<lambda>d. joinpath (joinpath base_dir d) filename) ds)"
proof (induction ds)
  case Nil
  then show ?case by simp
next
  case (Cons d ds)
  show ?case
  proof (cases "path_exists fs (joinpath base_dir d)")
    case True
    with Cons show ?thesis by (simp add: Let_def)
  next
    case False
    then have "\<not> path_exists fs (joinpath (joinpath base_dir d) filename)"
      using path_exists_join_component [OF assms] by blast
    with False Cons show ?thesis by (simp add: Let_def)
  qed
qed






section \<open>The image scan\<close>

lemma match_image_Nil: "match_image [] = None"
  by (simp add: match_image_def)

lemma image_sub_Nil: "image_sub fs base_dir [] = ([], 0, [])"
  by (simp add: image_sub.simps match_image_Nil)

lemma image_sub_None:
  "match_image (c # cs) = None \<Longrightarrow>
     image_sub fs base_dir (c # cs) =
       (case image_sub fs base_dir cs of (out, cnt, ds') \<Rightarrow> (c # out, cnt, ds'))"
  by (simp add: image_sub.simps)

lemma image_sub_Some:
  "match_image s = Some (a, p, r) \<Longrightarrow>
     image_sub fs base_dir s =
       (case replace_image fs base_dir a p of
          (repl, n, ds) \<Rightarrow>
            (case image_sub fs base_dir r of
               (out, cnt, ds') \<Rightarrow> (repl @ out, n + cnt, ds @ ds')))"
  by (simp add: image_sub.simps)

lemma extract_images_None:
  "match_image (c # cs) = None \<Longrightarrow> extract_images (c # cs) = extract_images cs"
  by (simp add: extract_images.simps)

lemma extract_images_Some:
  "match_image s = Some (a, p, r) \<Longrightarrow> extract_images s = p # extract_images r"
  by (simp add: extract_images.simps)

lemma replace_image_remote:
  "is_remote p \<Longrightarrow> replace_image fs base_dir a p = (group0 a p, 0, [])"
  by (simp add: replace_image_def)

lemma image_sub_remote_only:
  "\<forall>p \<in> set (extract_images s). is_remote p \<Longrightarrow> image_sub fs base_dir s = (s, 0, [])"
proof (induction fs base_dir s rule: image_sub.induct)
  case (1 fs base_dir s)
  show ?case
  proof (cases "match_image s")
    case None
    show ?thesis
    proof (cases s)
      case Nil
      then show ?thesis by (simp add: image_sub_Nil)
    next
      case (Cons c cs)
      with None have n: "match_image (c # cs) = None" by simp
      have "image_sub fs base_dir cs = (cs, 0, [])"
        using "1.IH"(1) [OF None Cons] "1.prems" Cons extract_images_None [OF n] by simp
      then show ?thesis using image_sub_None [OF n] Cons by simp
    qed
  next
    case (Some m)
    obtain a p r where m: "m = (a, p, r)" by (cases m)
    with Some have sm: "match_image s = Some (a, p, r)" by simp
    have ex: "extract_images s = p # extract_images r"
      using extract_images_Some [OF sm] .
    with "1.prems" have rp: "is_remote p" and rest: "\<forall>q \<in> set (extract_images r). is_remote q"
      by simp_all
    have rep: "replace_image fs base_dir a p = (group0 a p, 0, [])"
      using rp by (rule replace_image_remote)
    have "image_sub fs base_dir r = (r, 0, [])"
      using "1.IH"(2) [OF sm refl refl rep [symmetric] refl] rest by simp
    with rep show ?thesis
      using image_sub_Some [OF sm] match_image_eq [OF sm] by simp
  qed
qed

text \<open>
  Claim C6: when the path of every image reference of the text (every match of the pattern,
  as \<open>extract_images\<close> lists them) starts with \<open>http://\<close>, \<open>https://\<close> or \<open>data:\<close>,
  \<open>process\<close> returns the text unchanged and the count 0, and prints no diagnostic.
\<close>

theorem image_process_remote_unchanged:
  "\<forall>p \<in> set (extract_images content). is_remote p \<Longrightarrow>
     image_process fs content base_dir = (content, 0, [])"
  unfolding image_process_def by (rule image_sub_remote_only)

theorem image_process_remote_unchanged_witness:
  "extract_images ''![a](http://h/x.png) and ![b](data:image/png;base64,TWFu)'' =
     [''http://h/x.png'', ''data:image/png;base64,TWFu'']
   \<and> image_process fs_example ''![a](http://h/x.png) and ![b](data:image/png;base64,TWFu)''
         (Path False [''docs'']) =
       (''![a](http://h/x.png) and ![b](data:image/png;base64,TWFu)'', 0, [])"
proof -
  have e: "extract_images ''![a](http://h/x.png) and ![b](data:image/png;base64,TWFu)'' =
     [''http://h/x.png'', ''data:image/png;base64,TWFu'']"
    by code_simp
  have h: "\<forall>p \<in> set (extract_images ''![a](http://h/x.png) and ![b](data:image/png;base64,TWFu)'').
       is_remote p"
    unfolding e by code_simp
  from image_process_remote_unchanged [OF h] e show ?thesis by simp
qed

lemma match_image_iff:
  "match_image s = Some (a, p, r) \<longleftrightarrow>
     s = ''!['' @ a @ '']('' @ p @ '')'' @ r \<and>
     CHR '']'' \<notin> set a \<and> p \<noteq> [] \<and> CHR '')'' \<notin> set p"
proof
  assume m: "match_image s = Some (a, p, r)"
  from match_image_eq [OF m] have s: "s = ''!['' @ a @ '']('' @ p @ '')'' @ r"
    by (simp add: group0_def)
  from m have "\<exists>t. a = takeWhile (\<lambda>c. c \<noteq> CHR '']'') t"
    unfolding match_image_def by (auto simp: Let_def split: if_splits)
  then have a: "CHR '']'' \<notin> set a" by (auto dest: set_takeWhileD)
  from m have "p \<noteq> [] \<and> (\<exists>t. p = takeWhile (\<lambda>c. c \<noteq> CHR '')'') t)"
    unfolding match_image_def by (auto simp: Let_def split: if_splits)
  then have "p \<noteq> []" "CHR '')'' \<notin> set p" by (auto dest: set_takeWhileD)
  with s a show "s = ''!['' @ a @ '']('' @ p @ '')'' @ r \<and>
     CHR '']'' \<notin> set a \<and> p \<noteq> [] \<and> CHR '')'' \<notin> set p" by simp
next
  assume h: "s = ''!['' @ a @ '']('' @ p @ '')'' @ r \<and>
     CHR '']'' \<notin> set a \<and> p \<noteq> [] \<and> CHR '')'' \<notin> set p"
  then have ta: "takeWhile (\<lambda>c. c \<noteq> CHR '']'') (a @ '']('' @ p @ '')'' @ r) = a"
    by (subst takeWhile_append2) auto
  from h have tp: "takeWhile (\<lambda>c. c \<noteq> CHR '')'') (p @ '')'' @ r) = p"
    by (subst takeWhile_append2) auto
  from h have "s = ''!['' @ a @ '']('' @ p @ '')'' @ r" by simp
  then show "match_image s = Some (a, p, r)"
    using h ta tp unfolding match_image_def by (simp add: Let_def)
qed

lemma find_Some_holds: "List.find P xs = Some x \<Longrightarrow> P x"
  by (induction xs) (auto split: if_splits)

lemma find_image_file_exists:
  assumes "find_image_file fs image_path base_dir = Some f"
  shows "path_exists fs f"
proof (cases "first_attempt fs (path_attempts image_path base_dir)")
  case None
  with assms have "search_common fs base_dir (path_name (path_of_string image_path))
      common_dirs = Some f"
    by (simp add: find_image_file_def)
  then show ?thesis
    unfolding search_common_find [OF name_no_slash] by (rule find_Some_holds)
next
  case (Some g)
  with assms have "first_attempt fs (path_attempts image_path base_dir) = Some f"
    by (simp add: find_image_file_def)
  then show ?thesis unfolding first_attempt_find by (rule find_Some_holds)
qed

lemma replace_image_cases:
  "replace_image fs base_dir a p =
     (if is_remote p then (''!['' @ a @ '']('' @ p @ '')'', 0, [])
      else
        (case find_image_file fs p base_dir of
           None \<Rightarrow> (''!['' @ a @ '']('' @ p @ '')'', 0, [NotFound p])
         | Some f \<Rightarrow>
             (case read_bytes fs f of
                Inl e \<Rightarrow> (''!['' @ a @ '']('' @ p @ '')'', 0, [EncodeFailed f (str_exn e)])
              | Inr img_data \<Rightarrow>
                  (''!['' @ a @ '']('' @ ''data:'' @
                     (case map_of supported_formats (map ascii_lower (path_suffix f)) of
                        None \<Rightarrow> ''image/png''
                      | Some m \<Rightarrow> m) @
                     '';base64,'' @ b64encode (map of_char img_data) @ '')'',
                   1, [Embedded (path_name f) (length img_data)]))))"
proof (cases "is_remote p")
  case True
  then show ?thesis by (simp add: replace_image_def group0_def)
next
  case False
  show ?thesis
  proof (cases "find_image_file fs p base_dir")
    case None
    with False show ?thesis by (simp add: replace_image_def group0_def)
  next
    case (Some f)
    from find_image_file_exists [OF Some] have ex: "path_exists fs f" .
    show ?thesis
    proof (cases "read_bytes fs f")
      case (Inl e)
      with False Some ex show ?thesis
        by (simp add: replace_image_def group0_def to_base64_def Let_def)
    next
      case (Inr img_data)
      then have "lookup fs f = Some (File img_data)"
        by (auto simp: read_bytes_def split: option.splits node.splits)
      then have "stat_size fs f = Inr (length img_data)"
        by (simp add: stat_size_def)
      with False Some ex Inr show ?thesis
        by (simp add: replace_image_def group0_def to_base64_def Let_def)
    qed
  qed
qed

text \<open>
  Claim C10, as the code has it. The pattern matches at a position exactly when the text
  there reads \<open>![alt](path)\<close> with \<open>alt\<close> free of \<open>]\<close> and \<open>path\<close> non-empty and free of
  \<open>)\<close>: the alt text ends at the first \<open>]\<close> and the path at the first \<open>)\<close>. So a reference
  whose path is meant to contain \<open>)\<close> is still matched, with the path cut at its first \<open>)\<close>.
  The cut path is handled like any other: a remote path leaves the reference as it is; a
  path that resolves to no file leaves it as it is and is reported as not found; a path that
  resolves to a readable file is replaced by the data URI of the file and counted; one that
  resolves to something unreadable leaves the reference as it is and is reported. The text
  after the first \<open>)\<close> is scanned on.
\<close>

theorem image_reference_cut_at_first_paren:
  "(match_image s = Some (a, p, r) \<longleftrightarrow>
      s = ''!['' @ a @ '']('' @ p @ '')'' @ r \<and>
      CHR '']'' \<notin> set a \<and> p \<noteq> [] \<and> CHR '')'' \<notin> set p)
   \<and> (match_image s = Some (a, p, r) \<longrightarrow>
        image_process fs s base_dir =
          (case image_process fs r base_dir of
             (out, cnt, ds) \<Rightarrow>
               if is_remote p then (''!['' @ a @ '']('' @ p @ '')'' @ out, cnt, ds)
               else
                 (case find_image_file fs p base_dir of
                    None \<Rightarrow> (''!['' @ a @ '']('' @ p @ '')'' @ out, cnt, NotFound p # ds)
                  | Some f \<Rightarrow>
                      (case read_bytes fs f of
                         Inl e \<Rightarrow> (''!['' @ a @ '']('' @ p @ '')'' @ out, cnt,
                                    EncodeFailed f (str_exn e) # ds)
                       | Inr img_data \<Rightarrow>
                           (''!['' @ a @ '']('' @ ''data:'' @
                              (case map_of supported_formats
                                      (map ascii_lower (path_suffix f)) of
                                 None \<Rightarrow> ''image/png''
                               | Some m \<Rightarrow> m) @
                              '';base64,'' @ b64encode (map of_char img_data) @ '')'' @ out,
                            Suc cnt, Embedded (path_name f) (length img_data) # ds)))))"
proof -
  have "image_process fs s base_dir =
          (case image_process fs r base_dir of
             (out, cnt, ds) \<Rightarrow>
               if is_remote p then (''!['' @ a @ '']('' @ p @ '')'' @ out, cnt, ds)
               else
                 (case find_image_file fs p base_dir of
                    None \<Rightarrow> (''!['' @ a @ '']('' @ p @ '')'' @ out, cnt, NotFound p # ds)
                  | Some f \<Rightarrow>
                      (case read_bytes fs f of
                         Inl e \<Rightarrow> (''!['' @ a @ '']('' @ p @ '')'' @ out, cnt,
                                    EncodeFailed f (str_exn e) # ds)
                       | Inr img_data \<Rightarrow>
                           (''!['' @ a @ '']('' @ ''data:'' @
                              (case map_of supported_formats
                                      (map ascii_lower (path_suffix f)) of
                                 None \<Rightarrow> ''image/png''
                               | Some m \<Rightarrow> m) @
                              '';base64,'' @ b64encode (map of_char img_data) @ '')'' @ out,
                            Suc cnt, Embedded (path_name f) (length img_data) # ds))))"
    if m: "match_image s = Some (a, p, r)"
    unfolding image_process_def image_sub_Some [OF m] replace_image_cases
    by (auto split: prod.splits option.splits sum.splits)
  then show ?thesis using match_image_iff [of s a p r] by blast
qed

theorem image_reference_cut_at_first_paren_witness:
  "match_image ''![a](b)c)'' = Some (''a'', ''b'', ''c)'')
   \<and> image_process fs_example ''![a](b)c)'' (Path False [''docs'']) =
       (''![a](data:image/png;base64,TWFu)c)'', 1, [Embedded ''b'' 3])"
proof -
  have m: "match_image ''![a](b)c)'' = Some (''a'', ''b'', ''c)'')" by code_simp
  have r: "image_process fs_example ''c)'' (Path False [''docs'']) = (''c)'', 0, [])"
    by code_simp
  have nr: "\<not> is_remote ''b''" by code_simp
  have f: "find_image_file fs_example ''b'' (Path False [''docs'']) =
      Some (Path False [''docs'', ''b''])" by code_simp
  have rb: "read_bytes fs_example (Path False [''docs'', ''b'']) = Inr ''Man''" by code_simp
  have mt: "map_of supported_formats (map ascii_lower (path_suffix (Path False [''docs'', ''b''])))
      = None" by code_simp
  have b: "b64encode (map of_char ''Man'') = ''TWFu''" by code_simp
  have n: "path_name (Path False [''docs'', ''b'']) = ''b''" by code_simp
  from image_reference_cut_at_first_paren [of "''![a](b)c)''" "''a''" "''b''" "''c)''"
      fs_example "Path False [''docs'']"] m
  show ?thesis by (simp add: r nr f rb mt b n del: b64encode.simps list.map)
qed

text \<open>
  Claim C10 as stated fails: in \<open>![a](b)c)\<close> the path \<open>b)c\<close> contains \<open>)\<close>, yet the
  reference is matched with the path \<open>b\<close>; with a file \<open>docs/b\<close> present the text is
  changed, a diagnostic is printed and the count is 1.
\<close>

theorem image_paren_counterexample:
  "image_process fs_example ''![a](b)c)'' (Path False [''docs'']) =
     (''![a](data:image/png;base64,TWFu)c)'', 1, [Embedded ''b'' 3])"
  by code_simp

section \<open>Theme selection and missing sources\<close>

lemma get_theme_unknown:
  "theme_name \<notin> set (map fst themes) \<Longrightarrow> get_theme theme_name = DefaultTheme"
  by (simp add: get_theme_def map_of_eq_None_iff [THEN iffD2])

lemma get_theme_default: "get_theme ''default'' = DefaultTheme"
  by (simp add: get_theme_def themes_def)

text \<open>
  Claim C8: a theme identifier outside \<open>default\<close>, \<open>minimal\<close>, \<open>professional\<close> selects
  the default theme. Its CSS and script payloads are those of \<open>default\<close>, and a conversion
  with it returns the same result and leaves the same files as one with \<open>default\<close>.
\<close>

theorem unknown_theme_is_default:
  assumes "theme_name \<notin> set (map fst themes)"
  shows "get_theme theme_name = get_theme ''default'' \<and>
         get_styles A (get_theme theme_name) = get_styles A (get_theme ''default'') \<and>
         get_scripts A (get_theme theme_name) flag = get_scripts A (get_theme ''default'') flag \<and>
         convert md A w source_path output theme_name embed_images process_mermaid =
           convert md A w source_path output ''default'' embed_images process_mermaid"
proof -
  have t: "get_theme theme_name = get_theme ''default''"
    using get_theme_unknown [OF assms] get_theme_default by simp
  have eq: "create_html_document A b t ti theme_name n f =
          create_html_document A b t ti ''default'' n f" for b t ti n f
    by (simp add: create_html_document_def t)
  have "convert md A w source_path output theme_name embed_images process_mermaid =
      convert md A w source_path output ''default'' embed_images process_mermaid"
    unfolding convert_def convert_try_def eq ..
  then show ?thesis using t by simp
qed

theorem unknown_theme_is_default_witness:
  "''nonexistent'' \<notin> set (map fst themes) \<and>
   get_styles sample_payloads (get_theme ''nonexistent'') = ''/* default styles */'' \<and>
   convert sample_markdown sample_payloads sample_world (Path False [''c.md'']) None
       ''nonexistent'' True True =
     convert sample_markdown sample_payloads sample_world (Path False [''c.md'']) None
       ''default'' True True"
proof -
  have h: "''nonexistent'' \<notin> set (map fst themes)" by (simp add: themes_def)
  from unknown_theme_is_default [OF h, of sample_payloads] h show ?thesis
    by (simp add: get_theme_default sample_payloads_def)
qed







section \<open>The document written by a conversion\<close>

text \<open>
  Writing to a destination whose directory exists succeeds, and the file is then found
  under the destination with the text written.
\<close>

lemma ancestors_of_child:
  assumes "parts p \<noteq> []" and "lookup fs (path_parent p) = Some Dir"
  shows "ancestors_are_dirs fs p"
proof -
  have "fs (Path (is_absolute p) (take n (parts p))) = Some Dir"
    if n: "1 \<le> n" "n < length (parts p)" for n
  proof (cases "n = length (parts p) - 1")
    case True
    then have t: "take n (parts p) = butlast (parts p)"
      by (simp add: butlast_conv_take)
    from n True have "butlast (parts p) \<noteq> []" by (cases "parts p") auto
    with assms(2) have "fs (Path (is_absolute p) (butlast (parts p))) = Some Dir"
      by (simp add: lookup_def path_parent_def split: if_splits)
    with t show ?thesis by simp
  next
    case False
    define q where "q = butlast (parts p)"
    from False n have n': "n < length q" by (simp add: q_def)
    then have ne: "q \<noteq> []" by auto
    with assms(2) have "ancestors_are_dirs fs (Path (is_absolute p) q)"
      by (simp add: lookup_def path_parent_def q_def split: if_splits)
    then have "\<forall>k \<in> set [1..<length q].
        fs (Path (is_absolute p) (take k q)) = Some Dir"
      by (simp only: ancestors_are_dirs_def list_all_iff path.sel)
    moreover from n n' have "n \<in> set [1..<length q]" by auto
    ultimately have "fs (Path (is_absolute p) (take n q)) = Some Dir"
      by blast
    moreover from n' have "take n q = take n (parts p)"
      by (simp add: q_def take_butlast)
    ultimately show ?thesis by simp
  qed
  then show ?thesis
    unfolding ancestors_are_dirs_def list_all_iff by auto
qed

lemma ancestors_update:
  "ancestors_are_dirs fs p \<Longrightarrow> ancestors_are_dirs (fs(p \<mapsto> x)) p"
proof -
  assume a: "ancestors_are_dirs fs p"
  have "Path (is_absolute p) (take n (parts p)) \<noteq> p" if "n < length (parts p)" for n
  proof
    assume "Path (is_absolute p) (take n (parts p)) = p"
    then have "parts (Path (is_absolute p) (take n (parts p))) = parts p" by simp
    then have "length (take n (parts p)) = length (parts p)" by simp
    with that show False by simp
  qed
  with a show ?thesis
    unfolding ancestors_are_dirs_def list_all_iff by auto
qed

lemma write_text_Inr:
  assumes "write_text fs p s = Inr fs'"
  shows "fs' = fs(p \<mapsto> File s) \<and> lookup fs' p = Some (File s)"
proof -
  from assms have nd: "lookup fs p \<noteq> Some Dir"
    and pd: "lookup fs (path_parent p) = Some Dir"
    and fs': "fs' = fs(p \<mapsto> File s)"
    by (auto simp: write_text_def split: option.splits node.splits)
  from nd have ne: "parts p \<noteq> []" by (auto simp: lookup_def)
  from ancestors_of_child [OF ne pd] have "ancestors_are_dirs (fs(p \<mapsto> File s)) p"
    by (rule ancestors_update)
  with ne fs' show ?thesis by (simp add: lookup_def)
qed


lemma convert_success_document:
  assumes "convert md A w source_path output theme_name embed_images process_mermaid = (Inr r, w')"
      and "success r"
  shows "\<exists>text m title n.
           md text = Inr m \<and>
           lookup (files w') (output_path r) =
             Some (File (create_html_document A (html m)
                           (case toc m of None \<Rightarrow> [] | Some t \<Rightarrow> t)
                           title theme_name n process_mermaid))"
proof -
  define w0 where "w0 = snd (datetime_now w)"
  define st where "st = fst (datetime_now w)"
  from assms have t: "convert_try md A w0 st source_path output theme_name embed_images
      process_mermaid = (Inr r, w')"
    unfolding convert_def w0_def st_def
    by (auto split: prod.splits sum.splits)
  from t assms(2) show ?thesis
    unfolding convert_try_def Let_def datetime_now_def
    apply (auto split: if_splits sum.splits prod.splits dest!: write_text_Inr)
       apply blast+
    done
qed

lemma render_script_block:
  \<open>suffix (''\<newline>'' @
             ''    </div>\<newline>'' @
             ''    <script>\<newline>'' @
             ''        '' @
           get_scripts A th flag @
           ''\<newline>'' @
             ''    </script>\<newline>'' @
             ''</body>\<newline>'' @
             ''</html>'')
     (render A th body_html toc_html title n flag)\<close>
  unfolding render_def Let_def suffix_def by simp

text \<open>
  Claim C2, where the code departs from it. The template's flag \<open>has_mermaid\<close> is
  documented as telling whether the document contains a diagram, but \<open>convert\<close> passes
  the \<open>process_mermaid\<close> toggle of the request in its place and never calls the presence
  query. So for every successful conversion the script block of the document written is the
  theme's own script followed by the diagram bootstrap script when the toggle is on, and the
  theme's own script alone when it is off, whatever the text contains.
\<close>

theorem script_block_follows_toggle:
  assumes "convert md A w source_path output theme_name embed_images process_mermaid = (Inr r, w')"
      and "success r"
  shows \<open>\<exists>doc. lookup (files w') (output_path r) = Some (File doc) \<and>
           suffix (''\<newline>'' @
             ''    </div>\<newline>'' @
             ''    <script>\<newline>'' @
             ''        '' @
                   theme_scripts A (get_theme theme_name) @
                   (if process_mermaid then get_mermaid_script A else []) @
                   ''\<newline>'' @
             ''    </script>\<newline>'' @
             ''</body>\<newline>'' @
             ''</html>'') doc\<close>
proof -
  from convert_success_document [OF assms] obtain body toc_html title n where
    d: "lookup (files w') (output_path r) =
          Some (File (create_html_document A body toc_html title theme_name n process_mermaid))"
    by blast
  have g: "get_scripts A (get_theme theme_name) process_mermaid =
      theme_scripts A (get_theme theme_name) @
        (if process_mermaid then get_mermaid_script A else [])"
    by (simp add: get_scripts_def Let_def)
  show ?thesis
    using d render_script_block [of A "get_theme theme_name" process_mermaid body toc_html title n]
    unfolding create_html_document_def g by simp
qed

text \<open>
  The text \<open>hello\<close> holds no diagram block, before or after the rewrite pass, and with the
  toggle on the script block of the document written for it ends with the bootstrap script.
\<close>

theorem script_block_follows_toggle_witness:
  \<open>read_text (files sample_world) (Path False [''c.md'']) = Inr ''hello'' \<and>
   mermaid_process ''hello'' = ''hello'' \<and>
   has_mermaid ''hello'' = False \<and>
   (\<exists>r w' doc.
     convert sample_markdown sample_payloads sample_world (Path False [''c.md'']) None
       ''default'' True True = (Inr r, w') \<and> success r \<and>
     lookup (files w') (output_path r) = Some (File doc) \<and>
     suffix (''\<newline>'' @
             ''    </div>\<newline>'' @
             ''    <script>\<newline>'' @
             ''        '' @
             theme_scripts sample_payloads (get_theme ''default'') @
             (if True then get_mermaid_script sample_payloads else []) @
             ''\<newline>'' @
             ''    </script>\<newline>'' @
             ''</body>\<newline>'' @
             ''</html>'') doc)\<close>
proof -
  let ?c = "convert sample_markdown sample_payloads sample_world (Path False [''c.md'']) None
       ''default'' True True"
  have t: "read_text (files sample_world) (Path False [''c.md'']) = Inr ''hello'' \<and>
      mermaid_process ''hello'' = ''hello'' \<and> has_mermaid ''hello'' = False"
    by code_simp
  obtain r0 w' where c: "?c = (r0, w')" by (cases ?c)
  have "case fst ?c of Inl e \<Rightarrow> False | Inr r \<Rightarrow> success r" by code_simp
  with c obtain r where r: "r0 = Inr r" "success r" by (cases r0) auto
  from c r have c': "?c = (Inr r, w')" by simp
  from script_block_follows_toggle [OF c' r(2)] c' r(2) t show ?thesis by blast
qed

section \<open>The shell of an empty document\<close>






















section \<open>Exceptions and the failed result\<close>

text \<open>
  When the destination is given, or the source path has a name, the handler cannot raise:
  \<open>convert\<close> returns a result, a failure inside \<open>try\<close> becomes a failed result carrying
  \<open>str(e)\<close>, and a batch returns one result for each source path.
\<close>

lemma convert_returns_result:
  assumes "output_or_default output source_path = Inr out"
  shows "\<exists>r w'. convert md A w source_path output theme_name embed_images process_mermaid =
           (Inr r, w')"
proof -
  obtain st w0 where dn: "datetime_now w = (st, w0)" by (cases "datetime_now w")
  obtain x w1 where t: "convert_try md A w0 st source_path output theme_name embed_images
      process_mermaid = (x, w1)"
    by (cases "convert_try md A w0 st source_path output theme_name embed_images
      process_mermaid")
  obtain en w2 where dn1: "datetime_now w1 = (en, w2)" by (cases "datetime_now w1")
  show ?thesis
    by (cases x) (simp_all add: convert_def dn t dn1 assms)
qed

lemma convert_failure_message:
  assumes "datetime_now w = (st, w0)"
      and "convert_try md A w0 st source_path output theme_name embed_images
             process_mermaid = (Inl e, w1)"
      and "output_or_default output source_path = Inr out"
  shows "\<exists>r w'. convert md A w source_path output theme_name embed_images process_mermaid =
           (Inr r, w') \<and> success r = False \<and> error_message r = Some (str_exn e)"
proof -
  obtain en w2 where dn1: "datetime_now w1 = (en, w2)" by (cases "datetime_now w1")
  show ?thesis by (simp add: convert_def assms dn1)
qed

lemma output_or_default_ok:
  "output \<noteq> None \<or> path_name source_path \<noteq> [] \<Longrightarrow>
     \<exists>out. output_or_default output source_path = Inr out"
  by (cases "output") (auto simp: output_or_default_def with_suffix_def)

lemma convert_batch_loop_results:
  assumes "output_dir \<noteq> None \<or> (\<forall>p \<in> set source_paths. path_name p \<noteq> [])"
  shows "\<exists>rs w'. convert_batch_loop md A w results source_paths output_dir theme_name
             embed_images process_mermaid = (Inr (results @ rs), w') \<and>
           length rs = length source_paths"
  using assms
proof (induction source_paths arbitrary: w results)
  case Nil
  then show ?case by simp
next
  case (Cons p ps)
  let ?o = "case output_dir of None \<Rightarrow> None
            | Some d \<Rightarrow> Some (joinpath d (path_stem p @ ''.html''))"
  from Cons.prems have "?o \<noteq> None \<or> path_name p \<noteq> []" by (cases output_dir) auto
  then obtain out where "output_or_default ?o p = Inr out"
    using output_or_default_ok by blast
  from convert_returns_result [OF this] obtain r w1 where
    c: "convert md A w p ?o theme_name embed_images process_mermaid = (Inr r, w1)"
    by blast
  from Cons.prems have "output_dir \<noteq> None \<or> (\<forall>p \<in> set ps. path_name p \<noteq> [])" by auto
  from Cons.IH [OF this, of w1 "results @ [r]"] obtain rs w' where
    "convert_batch_loop md A w1 (results @ [r]) ps output_dir theme_name
       embed_images process_mermaid = (Inr ((results @ [r]) @ rs), w')"
    "length rs = length ps"
    by blast
  with c show ?case by (simp add: Let_def)
qed

lemma convert_nameless_source_raises:
  "convert md A w (Path a []) None theme_name embed_images process_mermaid =
     (Inl (Exn ''ValueError'' (repr_path (Path a []) @ '' has an empty name'')),
      w\<lparr>ticks := Suc (Suc (ticks w))\<rparr>)"
  by (simp add: convert_def convert_try_def datetime_now_def path_exists_def lookup_def
        read_text_def read_bytes_def output_or_default_def with_suffix_def path_name_def)

text \<open>
  Claim C1, at the input where the code breaks it. The current directory \<open>.\<close> exists and
  cannot be read as a text file, so the pipeline raises inside \<open>try\<close>; the handler then
  builds the failed result from \<open>source_path.with_suffix('.html')\<close>, which raises
  \<open>ValueError\<close> for a path with an empty name, and that exception leaves \<open>convert\<close>.
  In a batch without an output directory it ends the loop: the first file is converted, the
  third is never reached, and no result list is returned.
\<close>

theorem convert_nameless_source_escapes:
  "fst (convert sample_markdown sample_payloads sample_world (path_of_string ''.'') None
          ''default'' True True) =
     Inl (Exn ''ValueError'' (''PosixPath('' @ [CHR 0x27] @ ''.'' @ [CHR 0x27] @ '') has an empty name''))
   \<and> fst (convert_batch sample_markdown sample_payloads sample_world
          [path_of_string ''a.md'', path_of_string ''.'', path_of_string ''c.md''] None
          ''default'' True True) =
     Inl (Exn ''ValueError'' (''PosixPath('' @ [CHR 0x27] @ ''.'' @ [CHR 0x27] @ '') has an empty name''))
   \<and> lookup (files (snd (convert_batch sample_markdown sample_payloads sample_world
          [path_of_string ''a.md'', path_of_string ''.'', path_of_string ''c.md''] None
          ''default'' True True))) (path_of_string ''c.html'') = None"
  by code_simp

end
